theory Spec2Isabelle
  imports Main "HOL-Library.AList"
begin

text \<open>
  The authenticated HTTP client of the administration panel: the token bridge, the
  request interceptor and the response interceptor of src/lib/secureAxios.ts, the device
  identity of src/lib/deviceInfo.ts, the store of src/store/authStore.ts and the
  bootstrap of src/providers/AuthProvider.tsx. The client is single-threaded and runs
  to completion between its suspension points, so a handler is a function from the
  state to the new state and the effects seen outside, and concurrency is the order in
  which failed responses and the settlement of the refresh call arrive.
\<close>

section \<open>JavaScript values used by the client\<close>

text \<open>
  A value of type \<^verbatim>\<open>string | null\<close> (or an optional string) is a \<open>string option\<close>.
  The tests \<^verbatim>\<open>if (token)\<close>, \<^verbatim>\<open>if (!url)\<close>, \<^verbatim>\<open>if (deviceId)\<close> are JavaScript
  truthiness: a string is truthy unless it is empty, \<^verbatim>\<open>null\<close> and \<^verbatim>\<open>undefined\<close> are not.
\<close>

definition truthy :: "string option \<Rightarrow> bool" where
  "truthy v = (case v of None \<Rightarrow> False | Some s \<Rightarrow> s \<noteq> [])"

text \<open>A response body, as parsed JSON. An object is the list of its properties.\<close>

datatype json =
    JNull
  | JBool bool
  | JNum int
  | JStr string
  | JArr "json list"
  | JObj "(string \<times> json) list"

text \<open>\<^verbatim>\<open>typeof v === 'object' && v !== null\<close>: arrays and objects.\<close>

fun is_object :: "json \<Rightarrow> bool" where
  "is_object (JArr _) = True"
| "is_object (JObj _) = True"
| "is_object _ = False"

text \<open>Truthiness of a property read \<^verbatim>\<open>v.k\<close>; a missing property is \<^verbatim>\<open>undefined\<close>.\<close>

fun json_truthy :: "json \<Rightarrow> bool" where
  "json_truthy JNull = False"
| "json_truthy (JBool b) = b"
| "json_truthy (JNum n) = (n \<noteq> 0)"
| "json_truthy (JStr s) = (s \<noteq> [])"
| "json_truthy (JArr _) = True"
| "json_truthy (JObj _) = True"

fun get_prop :: "json \<Rightarrow> string \<Rightarrow> json option" where
  "get_prop (JObj ps) k = map_of ps k"
| "get_prop _ k = None"

definition prop_truthy :: "json \<Rightarrow> string \<Rightarrow> bool" where
  "prop_truthy v k = (case get_prop v k of None \<Rightarrow> False | Some x \<Rightarrow> json_truthy x)"

text \<open>\<^verbatim>\<open>String.prototype.includes\<close>: the fragment occurs as a contiguous run.\<close>

fun starts_with :: "string \<Rightarrow> string \<Rightarrow> bool" where
  "starts_with s [] = True"
| "starts_with [] (f # fs) = False"
| "starts_with (c # cs) (f # fs) = (c = f \<and> starts_with cs fs)"

fun str_includes :: "string \<Rightarrow> string \<Rightarrow> bool" where
  "str_includes [] f = (f = [])"
| "str_includes (c # cs) f = (starts_with (c # cs) f \<or> str_includes cs f)"

text \<open>
  The containment the specification speaks of, written as it is said: the URL is some
  text, then the fragment, then some text.
\<close>

definition contains_fragment :: "string \<Rightarrow> string \<Rightarrow> bool" where
  "contains_fragment s f = (\<exists>p q. s = p @ f @ q)"

section \<open>Requests, responses, errors (src/lib/secureAxios.ts)\<close>

text \<open>
  \<^verbatim>\<open>RetriableRequestConfig\<close>: the request configuration with the \<^verbatim>\<open>_retry\<close> marker
  (\<open>retry\<close>; an absent marker is \<open>False\<close>). \<open>http_method\<close> and \<open>data\<close> stand for the parts
  of the request no interceptor touches. \<open>headers\<close> is the header object, a list of
  name/value pairs written with \<open>AList.update\<close> (an assignment replaces the value of a
  header already there); the interceptors test \<^verbatim>\<open>config.headers\<close> before writing, so
  an absent header object is \<open>None\<close>.
\<close>

record config =
  url :: "string option"
  http_method :: string
  data :: "json option"
  headers :: "(string \<times> string) list option"
  retry :: bool

text \<open>The response of the server: its status and its \<^verbatim>\<open>data\<close>, here \<open>body\<close>.\<close>

record response =
  status :: int
  body :: json

text \<open>
  What the response interceptor's error handler receives: an axios error with its
  optional \<^verbatim>\<open>response\<close> and \<^verbatim>\<open>config\<close>, or any other thrown value.
\<close>

datatype error =
    AxiosError (response: "response option") (config: "config option")
  | OtherError string

definition set_header :: "string \<Rightarrow> string \<Rightarrow> config \<Rightarrow> config" where
  "set_header k v c = c\<lparr>headers := map_option (AList.update k v) (headers c)\<rparr>"

definition header :: "config \<Rightarrow> string \<Rightarrow> string option" where
  "header c k = (case headers c of None \<Rightarrow> None | Some hs \<Rightarrow> map_of hs k)"

definition auth_fragments :: "string list" where
  "auth_fragments =
     [''/auth/super-admin/login'', ''/auth/super-admin/refresh'',
      ''/auth/super-admin/mfa'', ''/auth/super-admin/step-up'']"

definition isAuthEndpoint :: "string option \<Rightarrow> bool" where
  "isAuthEndpoint u =
     (if \<not> truthy u then False
      else case u of
        None \<Rightarrow> False
      | Some s \<Rightarrow>
          str_includes s ''/auth/super-admin/login'' \<or>
          str_includes s ''/auth/super-admin/refresh'' \<or>
          str_includes s ''/auth/super-admin/mfa'' \<or>
          str_includes s ''/auth/super-admin/step-up'')"

section \<open>Device identity (src/lib/deviceInfo.ts)\<close>

text \<open>
  The surroundings of the client that its code reads but does not own: whether a
  \<^verbatim>\<open>window\<close> exists (browser or server rendering), the user agent string of
  \<^verbatim>\<open>navigator\<close> (\<open>None\<close> when \<^verbatim>\<open>navigator\<close> is undefined), and the identifier
  \<^verbatim>\<open>generateId()\<close> returns when it is called (a random UUID in the source).
\<close>

record env =
  has_window :: bool
  navigator :: "string option"
  generated_id :: string

text \<open>
  The module-level variables of secureAxios.ts (\<open>accessToken\<close>, \<open>isRefreshing\<close>,
  \<open>refreshQueue\<close>) and of deviceInfo.ts (\<open>cachedDeviceId\<close>, \<open>cachedLabel\<close>), the item
  \<^verbatim>\<open>gm_device_id\<close> of local storage, and the handler invocations suspended at
  \<^verbatim>\<open>await api.post('/auth/super-admin/refresh', {})\<close>, each with the
  \<^verbatim>\<open>originalRequest\<close> it holds (\<open>awaiting\<close>, oldest first). A callback in
  \<open>refreshQueue\<close> is the \<^verbatim>\<open>originalRequest\<close> its closure captured.
\<close>

record client_state =
  accessToken :: "string option"
  isRefreshing :: bool
  refreshQueue :: "config list"
  awaiting :: "config list"
  cachedDeviceId :: "string option"
  cachedLabel :: "string option"
  storedDeviceId :: "string option"

text \<open>\<^verbatim>\<open>tokenBridge\<close>, the Token Holder.\<close>

definition setAccessToken :: "string option \<Rightarrow> client_state \<Rightarrow> client_state" where
  "setAccessToken token s = s\<lparr>accessToken := token\<rparr>"

definition getAccessToken :: "client_state \<Rightarrow> string option" where
  "getAccessToken s = accessToken s"

text \<open>Letter case is ignored on the letters A to Z, the only ones the patterns hold.\<close>

definition lower_char :: "char \<Rightarrow> char" where
  "lower_char c =
     (let n = (of_char c :: nat) in if 65 \<le> n \<and> n \<le> 90 then char_of (n + 32) else c)"

text \<open>A test \<^verbatim>\<open>/a|b|c/i.test(ua)\<close>: some alternative occurs, letter case ignored.\<close>

definition test_i :: "string list \<Rightarrow> string \<Rightarrow> bool" where
  "test_i alts ua = list_ex (\<lambda>a. str_includes (map lower_char ua) (map lower_char a)) alts"

definition buildLabel :: "string option \<Rightarrow> string" where
  "buildLabel nav =
     (case nav of
        None \<Rightarrow> ''Unknown device''
      | Some ua \<Rightarrow>
          if test_i [''iPhone'', ''iPad'', ''iPod''] ua then ''iOS device''
          else if test_i [''Android''] ua then ''Android device''
          else if test_i [''Windows NT''] ua then ''Windows desktop''
          else if test_i [''Mac OS X''] ua then ''macOS desktop''
          else if test_i [''Linux''] ua then ''Linux desktop''
          else ''Unknown device'')"

definition getDeviceInfo ::
  "env \<Rightarrow> client_state \<Rightarrow> (string option \<times> string option) \<times> client_state" where
  "getDeviceInfo e s =
     (if \<not> has_window e then ((None, Some ''SSR''), s)
      else
        let s1 =
              (if \<not> truthy (cachedDeviceId s) then
                 (if truthy (storedDeviceId s) then s\<lparr>cachedDeviceId := storedDeviceId s\<rparr>
                  else s\<lparr>cachedDeviceId := Some (generated_id e),
                         storedDeviceId := Some (generated_id e)\<rparr>)
               else s);
            s2 =
              (if \<not> truthy (cachedLabel s1)
               then s1\<lparr>cachedLabel := Some (buildLabel (navigator e))\<rparr>
               else s1)
        in ((cachedDeviceId s2, cachedLabel s2), s2))"

section \<open>The request interceptor\<close>

definition attach_bearer :: "string option \<Rightarrow> config \<Rightarrow> config" where
  "attach_bearer token c =
     (case token of
        None \<Rightarrow> c
      | Some t \<Rightarrow>
          if t \<noteq> [] \<and> headers c \<noteq> None
          then set_header ''Authorization'' (''Bearer '' @ t) c
          else c)"

definition attach_device :: "string option \<times> string option \<Rightarrow> config \<Rightarrow> config" where
  "attach_device info c =
     (case fst info of
        None \<Rightarrow> c
      | Some deviceId \<Rightarrow>
          if deviceId = [] then c
          else
            let c1 = set_header ''x-device-id'' deviceId c in
            (case snd info of
               None \<Rightarrow> c1
             | Some deviceLabel \<Rightarrow>
                 if deviceLabel = [] then c1
                 else set_header ''x-device-label'' deviceLabel c1))"

definition request_interceptor :: "env \<Rightarrow> client_state \<Rightarrow> config \<Rightarrow> client_state \<times> config" where
  "request_interceptor e s c =
     (let token = getAccessToken s;
          c1 = attach_bearer token c in
      if has_window e \<and> headers c1 \<noteq> None then
        (let (info, s') = getDeviceInfo e s in (s', attach_device info c1))
      else (s, c1))"

text \<open>
  A call \<^verbatim>\<open>api(config)\<close> or \<^verbatim>\<open>api.post(url, data)\<close>: the request passes the request
  interceptor and leaves the client. The result is the request as it leaves; it keeps
  every field of the configuration it was called with, the \<^verbatim>\<open>_retry\<close> marker included,
  and the interceptor reads the token the bridge holds at the call.
\<close>

definition api :: "env \<Rightarrow> client_state \<Rightarrow> config \<Rightarrow> client_state \<times> config" where
  "api e s c = request_interceptor e s c"

definition refresh_request :: config where
  "refresh_request =
     \<lparr>url = Some ''/auth/super-admin/refresh'', http_method = ''post'', data = Some (JObj []),
      headers = Some [], retry = False\<rparr>"

section \<open>The response interceptor: step-up redirect and single-flight refresh\<close>

text \<open>
  What a step of the client does that is seen outside it:
  \<^item> \<open>Reject x\<close>: the handler invocation at hand returns \<^verbatim>\<open>Promise.reject(x)\<close>;
  \<^item> \<open>Redirect p\<close>: \<^verbatim>\<open>window.location.href = p\<close>;
  \<^item> \<open>RefreshCall out\<close>: \<^verbatim>\<open>api.post('/auth/super-admin/refresh', {})\<close> is issued, \<open>out\<close>
    being the request as it leaves;
  \<^item> \<open>Replay c out\<close>: the caller whose \<^verbatim>\<open>originalRequest\<close> is \<open>c\<close> gets the outcome of
    \<^verbatim>\<open>api(originalRequest)\<close>, the re-issued request leaving as \<open>out\<close>;
  \<^item> \<open>RejectRefresh c x\<close>: the invocation that awaited the refresh for \<open>c\<close> returns
    \<^verbatim>\<open>Promise.reject(refreshErr)\<close>.
\<close>

datatype effect =
    Reject error
  | Redirect string
  | RefreshCall config
  | Replay config config
  | RejectRefresh config error

text \<open>
  The error handler up to its first suspension point. A 401 whose \<^verbatim>\<open>config\<close> is
  undefined fails at \<^verbatim>\<open>originalRequest.url\<close> with a TypeError, which rejects the
  promise of the async handler.
\<close>

definition on_response_error :: "env \<Rightarrow> client_state \<Rightarrow> error \<Rightarrow> client_state \<times> effect list" where
  "on_response_error e s err =
     (case err of
        OtherError x \<Rightarrow> (s, [Reject err])
      | AxiosError resp cfg \<Rightarrow>
          (case resp of
             None \<Rightarrow> (s, [Reject err])
           | Some r \<Rightarrow>
               if status r = 403 \<and> is_object (body r) \<and> prop_truthy (body r) ''stepUp''
               then (s, (if has_window e then [Redirect ''/god/step-up''] else []) @ [Reject err])
               else if status r \<noteq> 401 then (s, [Reject err])
               else
                 (case cfg of
                    None \<Rightarrow> (s, [Reject (OtherError ''TypeError'')])
                  | Some originalRequest \<Rightarrow>
                      if isAuthEndpoint (url originalRequest) then (s, [Reject err])
                      else if retry originalRequest then (s, [Reject err])
                      else
                        let originalRequest = originalRequest\<lparr>retry := True\<rparr> in
                        if isRefreshing s
                        then (s\<lparr>refreshQueue := refreshQueue s @ [originalRequest]\<rparr>, [])
                        else
                          let s1 = s\<lparr>isRefreshing := True\<rparr>;
                              (s2, out) = api e s1 refresh_request
                          in (s2\<lparr>awaiting := awaiting s2 @ [originalRequest]\<rparr>,
                              [RefreshCall out]))))"

text \<open>
  A callback of \<open>refreshQueue\<close>, called with the new token or with \<^verbatim>\<open>null\<close>:
  it writes the header when the token is truthy and re-issues the request either way.
\<close>

definition queue_callback ::
  "env \<Rightarrow> client_state \<Rightarrow> config \<Rightarrow> string option \<Rightarrow> client_state \<times> effect" where
  "queue_callback e s originalRequest newToken =
     (let c = attach_bearer newToken originalRequest;
          (s', out) = api e s c
      in (s', Replay c out))"

text \<open>\<^verbatim>\<open>refreshQueue.forEach((cb) => cb(token))\<close>\<close>

fun forEach_queue ::
  "env \<Rightarrow> client_state \<Rightarrow> config list \<Rightarrow> string option \<Rightarrow> client_state \<times> effect list" where
  "forEach_queue e s [] newToken = (s, [])"
| "forEach_queue e s (cb # cbs) newToken =
     (let (s1, eff) = queue_callback e s cb newToken;
          (s2, effs) = forEach_queue e s1 cbs newToken
      in (s2, eff # effs))"

text \<open>The handler after the refresh call resolved with \<^verbatim>\<open>data.accessToken = tok\<close>.\<close>

definition refresh_fulfilled ::
  "env \<Rightarrow> client_state \<Rightarrow> config \<Rightarrow> string \<Rightarrow> client_state \<times> effect list" where
  "refresh_fulfilled e s originalRequest tok =
     (let s1 = setAccessToken (Some tok) s;
          (s2, effs) = forEach_queue e s1 (refreshQueue s1) (Some tok);
          s3 = s2\<lparr>refreshQueue := [], isRefreshing := False\<rparr>;
          c = (if headers originalRequest \<noteq> None
               then set_header ''Authorization'' (''Bearer '' @ tok) originalRequest
               else originalRequest);
          (s4, out) = api e s3 c
      in (s4, effs @ [Replay c out]))"

text \<open>The handler's \<^verbatim>\<open>catch (refreshErr)\<close> block.\<close>

definition refresh_rejected ::
  "env \<Rightarrow> client_state \<Rightarrow> config \<Rightarrow> error \<Rightarrow> client_state \<times> effect list" where
  "refresh_rejected e s originalRequest refreshErr =
     (let s1 = setAccessToken None s;
          (s2, effs) = forEach_queue e s1 (refreshQueue s1) None;
          s3 = s2\<lparr>refreshQueue := [], isRefreshing := False\<rparr>
      in (s3, effs @ [RejectRefresh originalRequest refreshErr]))"

text \<open>
  The client runs to completion between suspension points, so its behaviour under any
  interleaving of requests is a sequence of events: a failed response reaches the
  response interceptor, or the refresh call of the oldest suspended handler settles.
  A settlement with no suspended handler cannot happen and changes nothing.
\<close>

datatype event =
    ResponseError error
  | RefreshFulfilled string
  | RefreshRejected error

fun step :: "env \<Rightarrow> client_state \<Rightarrow> event \<Rightarrow> client_state \<times> effect list" where
  "step e s (ResponseError err) = on_response_error e s err"
| "step e s (RefreshFulfilled tok) =
     (case awaiting s of
        [] \<Rightarrow> (s, [])
      | c # rest \<Rightarrow> refresh_fulfilled e (s\<lparr>awaiting := rest\<rparr>) c tok)"
| "step e s (RefreshRejected x) =
     (case awaiting s of
        [] \<Rightarrow> (s, [])
      | c # rest \<Rightarrow> refresh_rejected e (s\<lparr>awaiting := rest\<rparr>) c x)"

fun run :: "env \<Rightarrow> client_state \<Rightarrow> event list \<Rightarrow> client_state \<times> effect list" where
  "run e s [] = (s, [])"
| "run e s (ev # evs) =
     (let (s1, effs1) = step e s ev;
          (s2, effs2) = run e s1 evs
      in (s2, effs1 @ effs2))"

text \<open>The module as loaded: no token, no refresh, nothing queued, nothing cached.\<close>

definition initial_client :: "string option \<Rightarrow> client_state" where
  "initial_client stored =
     \<lparr>accessToken = None, isRefreshing = False, refreshQueue = [], awaiting = [],
      cachedDeviceId = None, cachedLabel = None, storedDeviceId = stored\<rparr>"

section \<open>The auth store (src/store/authStore.ts)\<close>

datatype UserRole = super_admin

record AuthUser =
  user_id :: string
  email :: "string option"
  role :: UserRole

text \<open>The data of the zustand store; \<open>store_accessToken\<close> is its \<^verbatim>\<open>accessToken\<close> field.\<close>

record AuthState =
  user :: "AuthUser option"
  store_accessToken :: "string option"
  isLoading :: bool
  hasBootstrapped :: bool

definition initial_store :: AuthState where
  "initial_store =
     \<lparr>user = None, store_accessToken = None, isLoading = True, hasBootstrapped = False\<rparr>"

text \<open>The application state: the modules' variables and the store.\<close>

type_synonym app = "client_state \<times> AuthState"

text \<open>
  The store's actions are sequences of writes, in the order of their statements:
  \<open>BridgeSet t\<close> is \<^verbatim>\<open>tokenBridge.setAccessToken(t)\<close>, \<open>StoreSet u t\<close> is
  \<^verbatim>\<open>set({ user: u, accessToken: t, isLoading: false, hasBootstrapped: true })\<close> and
  \<open>StoreLoading v\<close> is \<^verbatim>\<open>set({ isLoading: v })\<close>.
\<close>

datatype store_write =
    BridgeSet "string option"
  | StoreSet "AuthUser option" "string option"
  | StoreLoading bool

fun apply_write :: "app \<Rightarrow> store_write \<Rightarrow> app" where
  "apply_write (c, st) (BridgeSet t) = (setAccessToken t c, st)"
| "apply_write (c, st) (StoreSet u t) =
     (c, st\<lparr>user := u, store_accessToken := t, isLoading := False, hasBootstrapped := True\<rparr>)"
| "apply_write (c, st) (StoreLoading v) = (c, st\<lparr>isLoading := v\<rparr>)"

datatype store_op =
    SetAuth AuthUser string
  | ClearAuth
  | SetLoading bool

fun writes_of :: "store_op \<Rightarrow> store_write list" where
  "writes_of (SetAuth u t) = [BridgeSet (Some t), StoreSet (Some u) (Some t)]"
| "writes_of ClearAuth = [BridgeSet None, StoreSet None None]"
| "writes_of (SetLoading v) = [StoreLoading v]"

definition apply_op :: "app \<Rightarrow> store_op \<Rightarrow> app" where
  "apply_op a op = foldl apply_write a (writes_of op)"

definition setAuth :: "AuthUser \<Rightarrow> string \<Rightarrow> app \<Rightarrow> app" where
  "setAuth u t a = apply_op a (SetAuth u t)"

definition clearAuth :: "app \<Rightarrow> app" where
  "clearAuth a = apply_op a ClearAuth"

definition setLoading :: "bool \<Rightarrow> app \<Rightarrow> app" where
  "setLoading v a = apply_op a (SetLoading v)"

section \<open>The bootstrap of the session (src/providers/AuthProvider.tsx)\<close>

text \<open>How the bootstrap's refresh call settles: with \<^verbatim>\<open>data.user\<close> and \<^verbatim>\<open>data.accessToken\<close>, or not.\<close>

datatype refresh_outcome =
    Fulfilled AuthUser string
  | Failed

text \<open>\<^verbatim>\<open>bootstrap()\<close> up to its \<^verbatim>\<open>await\<close>.\<close>

definition bootstrap_begin :: "env \<Rightarrow> app \<Rightarrow> app \<times> effect list" where
  "bootstrap_begin e a =
     (let (c, st) = setLoading True a;
          (c', out) = api e c refresh_request
      in ((c', st), [RefreshCall out]))"

text \<open>
  \<^verbatim>\<open>bootstrap()\<close> after the \<^verbatim>\<open>await\<close>; \<open>cancelled\<close> is the flag the effect's cleanup sets.
\<close>

definition bootstrap_settled :: "bool \<Rightarrow> refresh_outcome \<Rightarrow> app \<Rightarrow> app" where
  "bootstrap_settled cancelled outcome a =
     (if cancelled then a
      else
        let a1 = (case outcome of Fulfilled u t \<Rightarrow> setAuth u t a | Failed \<Rightarrow> clearAuth a)
        in setLoading False a1)"

text \<open>Everything that can happen to the application, one event at a time.\<close>

datatype app_event =
    Client event
  | Store store_op
  | BootstrapBegin
  | BootstrapSettled bool refresh_outcome

fun app_step :: "env \<Rightarrow> app \<Rightarrow> app_event \<Rightarrow> app \<times> effect list" where
  "app_step e (c, st) (Client ev) = (let (c', effs) = step e c ev in ((c', st), effs))"
| "app_step e a (Store op) = (apply_op a op, [])"
| "app_step e a BootstrapBegin = bootstrap_begin e a"
| "app_step e a (BootstrapSettled cancelled outcome) = (bootstrap_settled cancelled outcome a, [])"

fun app_run :: "env \<Rightarrow> app \<Rightarrow> app_event list \<Rightarrow> app \<times> effect list" where
  "app_run e a [] = (a, [])"
| "app_run e a (ev # evs) =
     (let (a1, effs1) = app_step e a ev;
          (a2, effs2) = app_run e a1 evs
      in (a2, effs1 @ effs2))"

definition initial_app :: "string option \<Rightarrow> app" where
  "initial_app stored = (initial_client stored, initial_store)"

section \<open>Reading a trace of effects\<close>

text \<open>What a request shows on the wire: URL, method, body and its Authorization header.\<close>

definition wire :: "config \<Rightarrow> string option \<times> string \<times> json option \<times> string option" where
  "wire c = (url c, http_method c, data c, header c ''Authorization'')"

text \<open>A replay's re-issued request as it left; \<open>None\<close> for any other effect.\<close>

fun replayed :: "effect \<Rightarrow> (string option \<times> string \<times> json option \<times> string option) option" where
  "replayed (Replay c out) = Some (wire out)"
| "replayed _ = None"

text \<open>A replay carries the retry marker, on the request held and on the request sent.\<close>

fun replay_marked :: "effect \<Rightarrow> bool" where
  "replay_marked (Replay c out) = (retry c \<and> retry out)"
| "replay_marked _ = True"

fun refresh_calls :: "effect list \<Rightarrow> nat" where
  "refresh_calls [] = 0"
| "refresh_calls (RefreshCall out # effs) = Suc (refresh_calls effs)"
| "refresh_calls (_ # effs) = refresh_calls effs"

fun redirects :: "effect list \<Rightarrow> nat" where
  "redirects [] = 0"
| "redirects (Redirect p # effs) = Suc (redirects effs)"
| "redirects (_ # effs) = redirects effs"

text \<open>
  The token-expired signal of a failed response: status 401, not an authentication
  endpoint, not retried yet. The header object is there, as the type of the request
  configuration says.
\<close>

definition token_expired :: "response \<times> config \<Rightarrow> bool" where
  "token_expired rc =
     (status (fst rc) = 401 \<and> \<not> isAuthEndpoint (url (snd rc)) \<and> \<not> retry (snd rc) \<and>
      headers (snd rc) \<noteq> None)"

definition failed_with :: "response \<times> config \<Rightarrow> event" where
  "failed_with rc = ResponseError (AxiosError (Some (fst rc)) (Some (snd rc)))"

text \<open>No refresh is in flight and nobody waits for one.\<close>

definition idle :: "client_state \<Rightarrow> bool" where
  "idle s = (\<not> isRefreshing s \<and> refreshQueue s = [] \<and> awaiting s = [])"

text \<open>
  At most one handler waits for a refresh call; the flag is set exactly while one does,
  and requests are queued only then.
\<close>

definition single_flight :: "client_state \<Rightarrow> bool" where
  "single_flight s =
     (length (awaiting s) \<le> 1 \<and> (isRefreshing s \<longleftrightarrow> awaiting s \<noteq> []) \<and>
      (refreshQueue s \<noteq> [] \<longrightarrow> isRefreshing s))"

text \<open>The two places that hold the access token hold the same.\<close>

definition tokens_agree :: "app \<Rightarrow> bool" where
  "tokens_agree a = (store_accessToken (snd a) = getAccessToken (fst a))"

text \<open>The Authorization value a held token gives; \<open>None\<close> when no token is held.\<close>

definition bearer_of :: "string option \<Rightarrow> string option" where
  "bearer_of token =
     (case token of None \<Rightarrow> None | Some t \<Rightarrow> if t = [] then None else Some (''Bearer '' @ t))"

text \<open>The token the bridge holds when the requests of a step are issued.\<close>

fun token_at_issue :: "client_state \<Rightarrow> event \<Rightarrow> string option" where
  "token_at_issue s (ResponseError err) = accessToken s"
| "token_at_issue s (RefreshFulfilled tok) = Some tok"
| "token_at_issue s (RefreshRejected x) = None"

text \<open>
  A request that left the client was decorated under token \<open>t\<close>: it carries the bearer
  value of \<open>t\<close> when one is held, whatever header the request held before, and the
  header it had otherwise.
\<close>

definition decorated :: "string option \<Rightarrow> config \<Rightarrow> config \<Rightarrow> bool" where
  "decorated t c out =
     (url out = url c \<and> http_method out = http_method c \<and> data out = data c \<and> retry out = retry c \<and>
      header out ''Authorization'' =
        (if headers c = None then None
         else case bearer_of t of Some b \<Rightarrow> Some b | None \<Rightarrow> header c ''Authorization''))"

fun issued_under :: "string option \<Rightarrow> effect \<Rightarrow> bool" where
  "issued_under t (RefreshCall out) = decorated t refresh_request out"
| "issued_under t (Replay c out) = decorated t c out"
| "issued_under t _ = True"

text \<open>A replay left with the bearer value of the token \<open>t\<close>, and no other effect is asked anything.\<close>

fun carries_token :: "string option \<Rightarrow> effect \<Rightarrow> bool" where
  "carries_token t (Replay c out) = (header out ''Authorization'' = bearer_of t)"
| "carries_token t _ = True"

text \<open>The effect is a rejection with the refresh failure \<open>x\<close>.\<close>

fun rejected_with :: "error \<Rightarrow> effect \<Rightarrow> bool" where
  "rejected_with x (RejectRefresh c y) = (y = x)"
| "rejected_with x (Reject y) = (y = x)"
| "rejected_with x _ = False"

text \<open>Every request the client holds back carries the retry marker.\<close>

definition marked :: "client_state \<Rightarrow> bool" where
  "marked s = (list_all retry (refreshQueue s) \<and> list_all retry (awaiting s))"

section \<open>Example data\<close>

text \<open>A browser, and the server-side rendering of the same module (no \<^verbatim>\<open>window\<close>).\<close>

definition browser :: env where
  "browser =
     \<lparr>has_window = True, navigator = Some ''Mozilla/5.0 (X11; Linux x86_64)'',
      generated_id = ''7c9e6679-7425-40de-944b-e07fc1f90ae7''\<rparr>"

definition server :: env where
  "server = \<lparr>has_window = False, navigator = None, generated_id = []\<rparr>"

definition expired :: response where
  "expired = \<lparr>status = 401, body = JObj [(''message'', JStr ''Token expired'')]\<rparr>"

definition step_up_required :: response where
  "step_up_required =
     \<lparr>status = 403, body = JObj [(''stepUp'', JBool True), (''riskLevel'', JStr ''high'')]\<rparr>"

text \<open>A GET request as it was sent while the token \<open>tok\<close> was held.\<close>

definition get_request :: "string \<Rightarrow> string \<Rightarrow> config" where
  "get_request u tok =
     \<lparr>url = Some u, http_method = ''get'', data = None,
      headers = Some [(''Authorization'', ''Bearer '' @ tok)], retry = False\<rparr>"

definition req_A :: "response \<times> config" where
  "req_A = (expired, get_request ''/admin-monitor/overview'' ''T1'')"

definition req_B :: "response \<times> config" where
  "req_B = (expired, get_request ''/admin-monitor/incidents/42'' ''T1'')"

definition req_C :: "response \<times> config" where
  "req_C = (expired, get_request ''/auth/super-admin/sessions'' ''T1'')"

definition refresh_failure :: error where
  "refresh_failure =
     AxiosError (Some \<lparr>status = 401, body = JObj [(''message'', JStr ''Session revoked'')]\<rparr>)
       (Some refresh_request)"

definition admin :: AuthUser where
  "admin = \<lparr>user_id = ''u1'', email = None, role = super_admin\<rparr>"

section \<open>Strings and headers\<close>

lemma bridge_simps [simp]:
  "setAccessToken t s = s\<lparr>accessToken := t\<rparr>"
  "getAccessToken s = accessToken s"
  by (simp_all add: setAccessToken_def getAccessToken_def)

lemma starts_with_iff: "starts_with s f \<longleftrightarrow> (\<exists>q. s = f @ q)"
  by (induction s f rule: starts_with.induct) auto

lemma str_includes_iff: "str_includes s f \<longleftrightarrow> contains_fragment s f"
proof (induction s)
  case Nil
  show ?case by (auto simp: contains_fragment_def)
next
  case (Cons c cs)
  have "contains_fragment (c # cs) f \<longleftrightarrow> (\<exists>q. c # cs = f @ q) \<or> contains_fragment cs f"
    unfolding contains_fragment_def
    by (auto simp: Cons_eq_append_conv)
  with Cons show ?case by (simp add: starts_with_iff)
qed

lemma isAuthEndpoint_iff:
  "isAuthEndpoint u \<longleftrightarrow> (\<exists>s. u = Some s \<and> list_ex (contains_fragment s) auth_fragments)"
  by (cases u)
     (auto simp: isAuthEndpoint_def truthy_def auth_fragments_def str_includes_iff
        contains_fragment_def)

lemma header_set_header:
  "header (set_header k v c) k' =
     (if headers c = None then None else if k' = k then Some v else header c k')"
  by (auto simp: header_def set_header_def update_conv' split: option.splits)

lemma header_no_headers: "headers c = None \<Longrightarrow> header c k = None"
  by (simp add: header_def)

lemma set_header_fields [simp]:
  "url (set_header k v c) = url c" "http_method (set_header k v c) = http_method c"
  "data (set_header k v c) = data c" "retry (set_header k v c) = retry c"
  "(headers (set_header k v c) = None) = (headers c = None)"
  by (simp_all add: set_header_def)

lemma attach_bearer_fields [simp]:
  "url (attach_bearer t c) = url c" "http_method (attach_bearer t c) = http_method c"
  "data (attach_bearer t c) = data c" "retry (attach_bearer t c) = retry c"
  "(headers (attach_bearer t c) = None) = (headers c = None)"
  by (simp_all add: attach_bearer_def split: option.splits)

lemma attach_bearer_None [simp]: "attach_bearer None c = c"
  by (simp add: attach_bearer_def)

lemma attach_device_fields [simp]:
  "url (attach_device i c) = url c" "http_method (attach_device i c) = http_method c"
  "data (attach_device i c) = data c" "retry (attach_device i c) = retry c"
  "(headers (attach_device i c) = None) = (headers c = None)"
  by (simp_all add: attach_device_def Let_def split: option.splits)

lemma header_attach_bearer:
  "header (attach_bearer t c) ''Authorization'' =
     (if truthy t \<and> headers c \<noteq> None then Some (''Bearer '' @ the t)
      else header c ''Authorization'')"
  by (auto simp: attach_bearer_def truthy_def header_set_header split: option.splits)

lemma header_attach_bearer_other:
  "k \<noteq> ''Authorization'' \<Longrightarrow> header (attach_bearer t c) k = header c k"
  by (auto simp: attach_bearer_def header_set_header split: option.splits)

lemma header_attach_device_auth:
  "header (attach_device i c) ''Authorization'' = header c ''Authorization''"
  by (auto simp: attach_device_def Let_def header_set_header header_no_headers
        split: option.splits)

lemma header_attach_device_id:
  assumes "headers c \<noteq> None" and "d \<noteq> []" and "l \<noteq> []"
  shows "header (attach_device (Some d, Some l) c) ''x-device-id'' = Some d"
    and "header (attach_device (Some d, Some l) c) ''x-device-label'' = Some l"
  using assms by (simp_all add: attach_device_def Let_def header_set_header)

section \<open>What a call of the client leaves untouched\<close>

lemma buildLabel_nonempty: "buildLabel nav \<noteq> []"
  by (simp add: buildLabel_def split: option.splits)

lemma getDeviceInfo_frame:
  "accessToken (snd (getDeviceInfo e s)) = accessToken s"
  "isRefreshing (snd (getDeviceInfo e s)) = isRefreshing s"
  "refreshQueue (snd (getDeviceInfo e s)) = refreshQueue s"
  "awaiting (snd (getDeviceInfo e s)) = awaiting s"
  by (simp_all add: getDeviceInfo_def Let_def)

lemma getDeviceInfo_browser:
  assumes "has_window e" and "generated_id e \<noteq> []"
  shows "\<exists>d l. d \<noteq> [] \<and> l \<noteq> [] \<and> fst (getDeviceInfo e s) = (Some d, Some l)"
  using assms
  by (auto simp: getDeviceInfo_def Let_def truthy_def buildLabel_nonempty split: option.splits)

lemma api_frame:
  "accessToken (fst (api e s c)) = accessToken s"
  "isRefreshing (fst (api e s c)) = isRefreshing s"
  "refreshQueue (fst (api e s c)) = refreshQueue s"
  "awaiting (fst (api e s c)) = awaiting s"
  by (simp_all add: api_def request_interceptor_def Let_def case_prod_beta getDeviceInfo_frame)

lemma api_out_fields:
  "url (snd (api e s c)) = url c" "http_method (snd (api e s c)) = http_method c"
  "data (snd (api e s c)) = data c" "retry (snd (api e s c)) = retry c"
  by (simp_all add: api_def request_interceptor_def Let_def split: prod.splits)

lemma api_out_auth:
  "header (snd (api e s c)) ''Authorization'' =
     (if truthy (accessToken s) \<and> headers c \<noteq> None then Some (''Bearer '' @ the (accessToken s))
      else header c ''Authorization'')"
  by (auto simp: api_def request_interceptor_def Let_def header_attach_device_auth
        header_attach_bearer split: prod.splits)

lemma api_decorated: "decorated (accessToken s) c (snd (api e s c))"
  by (auto simp: decorated_def api_out_fields api_out_auth bearer_of_def truthy_def
        header_no_headers split: option.splits)

section \<open>Draining the queue\<close>

lemma refresh_calls_append: "refresh_calls (xs @ ys) = refresh_calls xs + refresh_calls ys"
  by (induction xs rule: refresh_calls.induct) simp_all

lemma redirects_append: "redirects (xs @ ys) = redirects xs + redirects ys"
  by (induction xs rule: redirects.induct) simp_all

lemma forEach_queue_frame:
  "accessToken (fst (forEach_queue e s q t)) = accessToken s"
  "isRefreshing (fst (forEach_queue e s q t)) = isRefreshing s"
  "refreshQueue (fst (forEach_queue e s q t)) = refreshQueue s"
  "awaiting (fst (forEach_queue e s q t)) = awaiting s"
  by (induction q arbitrary: s; simp add: queue_callback_def case_prod_beta Let_def api_frame)+

lemma forEach_queue_replayed:
  "map replayed (snd (forEach_queue e s q t)) =
     map (\<lambda>c. Some (url c, http_method c, data c,
            if truthy (accessToken s) \<and> headers c \<noteq> None
            then Some (''Bearer '' @ the (accessToken s))
            else header (attach_bearer t c) ''Authorization'')) q"
  by (induction q arbitrary: s)
     (auto simp: queue_callback_def case_prod_beta Let_def api_frame wire_def
        api_out_fields api_out_auth)

lemma forEach_queue_marked:
  "list_all retry q \<Longrightarrow> list_all replay_marked (snd (forEach_queue e s q t))"
  by (induction q arbitrary: s)
     (simp_all add: queue_callback_def case_prod_beta Let_def api_out_fields)

lemma forEach_queue_counts:
  "refresh_calls (snd (forEach_queue e s q t)) = 0"
  "redirects (snd (forEach_queue e s q t)) = 0"
  by (induction q arbitrary: s; simp add: queue_callback_def case_prod_beta Let_def)+

lemma forEach_queue_issued:
  "list_all (issued_under (accessToken s)) (snd (forEach_queue e s q t))"
proof (induction q arbitrary: s)
  case Nil
  show ?case by simp
next
  case (Cons c q)
  let ?s1 = "fst (api e s (attach_bearer t c))"
  have "list_all (issued_under (accessToken ?s1)) (snd (forEach_queue e ?s1 q t))"
    by (rule Cons.IH)
  then show ?case
    by (simp add: queue_callback_def case_prod_beta Let_def api_decorated api_frame)
qed

section \<open>The refresh cycle\<close>

lemma token_expired_step:
  assumes "token_expired rc"
  shows "step e s (failed_with rc) =
          (if isRefreshing s
           then (s\<lparr>refreshQueue := refreshQueue s @ [(snd rc)\<lparr>retry := True\<rparr>]\<rparr>, [])
           else (let s2 = fst (api e (s\<lparr>isRefreshing := True\<rparr>) refresh_request)
                 in (s2\<lparr>awaiting := awaiting s2 @ [(snd rc)\<lparr>retry := True\<rparr>]\<rparr>,
                     [RefreshCall (snd (api e (s\<lparr>isRefreshing := True\<rparr>) refresh_request))])))"
  using assms
  by (simp add: token_expired_def failed_with_def on_response_error_def Let_def case_prod_beta)

lemma first_401_when_idle:
  assumes "idle s" and "token_expired rc"
  shows "\<exists>s1. step e s (failed_with rc) =
            (s1, [RefreshCall (snd (api e (s\<lparr>isRefreshing := True\<rparr>) refresh_request))]) \<and>
          isRefreshing s1 \<and> refreshQueue s1 = [] \<and> awaiting s1 = [(snd rc)\<lparr>retry := True\<rparr>] \<and>
          accessToken s1 = accessToken s"
  using assms by (simp add: token_expired_step idle_def Let_def api_frame)

lemma run_while_refreshing:
  assumes "isRefreshing s" and "list_all token_expired rcs"
  shows "run e s (map failed_with rcs) =
           (s\<lparr>refreshQueue := refreshQueue s @ map (\<lambda>rc. (snd rc)\<lparr>retry := True\<rparr>) rcs\<rparr>, [])"
  using assms
proof (induction rcs arbitrary: s)
  case Nil
  then show ?case by simp
next
  case (Cons rc rcs)
  let ?s1 = "s\<lparr>refreshQueue := refreshQueue s @ [(snd rc)\<lparr>retry := True\<rparr>]\<rparr>"
  have st: "step e s (failed_with rc) = (?s1, [])"
    using Cons.prems by (simp add: token_expired_step)
  have "run e ?s1 (map failed_with rcs) =
          (?s1\<lparr>refreshQueue := refreshQueue ?s1 @ map (\<lambda>rc. (snd rc)\<lparr>retry := True\<rparr>) rcs\<rparr>, [])"
    using Cons.prems by (intro Cons.IH) simp_all
  with st show ?case by simp
qed

lemma refresh_fulfilled_result:
  assumes "tok \<noteq> []" and "headers c0 \<noteq> None" and "refresh_fulfilled e s c0 tok = (s', effs)"
  shows "map replayed effs =
           map (\<lambda>c. Some (url c, http_method c, data c,
                  if headers c \<noteq> None then Some (''Bearer '' @ tok) else None))
             (refreshQueue s @ [c0])"
    and "refresh_calls effs = 0" and "redirects effs = 0"
    and "accessToken s' = Some tok" and "\<not> isRefreshing s'" and "refreshQueue s' = []"
    and "awaiting s' = awaiting s"
proof -
  let ?s1 = "s\<lparr>accessToken := Some tok\<rparr>"
  let ?fe = "forEach_queue e ?s1 (refreshQueue s) (Some tok)"
  let ?s3 = "(fst ?fe)\<lparr>refreshQueue := [], isRefreshing := False\<rparr>"
  let ?c = "set_header ''Authorization'' (''Bearer '' @ tok) c0"
  have eq: "s' = fst (api e ?s3 ?c)" "effs = snd ?fe @ [Replay ?c (snd (api e ?s3 ?c))]"
    using assms(2,3) by (auto simp: refresh_fulfilled_def Let_def case_prod_beta)
  have tok3: "accessToken ?s3 = Some tok"
    by (simp add: forEach_queue_frame)
  have hdr: "header (attach_bearer (Some tok) c) ''Authorization'' = None" if "headers c = None" for c
    using that by (simp add: header_attach_bearer header_no_headers)
  show "map replayed effs =
           map (\<lambda>c. Some (url c, http_method c, data c,
                  if headers c \<noteq> None then Some (''Bearer '' @ tok) else None))
             (refreshQueue s @ [c0])"
    using assms(1,2) tok3
    by (auto simp: eq forEach_queue_replayed wire_def api_out_fields api_out_auth truthy_def hdr)
  show "refresh_calls effs = 0" "redirects effs = 0"
    by (simp_all add: eq refresh_calls_append redirects_append forEach_queue_counts)
  show "accessToken s' = Some tok" "\<not> isRefreshing s'" "refreshQueue s' = []"
       "awaiting s' = awaiting s"
    by (simp_all add: eq api_frame forEach_queue_frame)
qed

lemma refresh_rejected_result:
  assumes "refresh_rejected e s c0 x = (s', effs)"
  shows "\<exists>replays. effs = replays @ [RejectRefresh c0 x] \<and>
           map replayed replays = map (\<lambda>c. Some (wire c)) (refreshQueue s) \<and>
           refresh_calls replays = 0"
    and "accessToken s' = None" and "\<not> isRefreshing s'" and "refreshQueue s' = []"
    and "awaiting s' = awaiting s"
proof -
  let ?s1 = "s\<lparr>accessToken := None\<rparr>"
  let ?fe = "forEach_queue e ?s1 (refreshQueue s) None"
  have eq: "s' = (fst ?fe)\<lparr>refreshQueue := [], isRefreshing := False\<rparr>"
      "effs = snd ?fe @ [RejectRefresh c0 x]"
    using assms by (auto simp: refresh_rejected_def Let_def case_prod_beta)
  have "map replayed (snd ?fe) = map (\<lambda>c. Some (wire c)) (refreshQueue s)"
    by (simp add: forEach_queue_replayed truthy_def wire_def)
  then show "\<exists>replays. effs = replays @ [RejectRefresh c0 x] \<and>
           map replayed replays = map (\<lambda>c. Some (wire c)) (refreshQueue s) \<and>
           refresh_calls replays = 0"
    by (simp add: eq forEach_queue_counts)
  show "accessToken s' = None" "\<not> isRefreshing s'" "refreshQueue s' = []"
       "awaiting s' = awaiting s"
    by (simp_all add: eq forEach_queue_frame)
qed

lemma on_response_error_single_flight:
  "single_flight s \<Longrightarrow> single_flight (fst (on_response_error e s err))"
  by (auto simp: on_response_error_def single_flight_def Let_def case_prod_beta api_frame
        split: error.splits option.splits)

lemma step_single_flight:
  assumes "single_flight s"
  shows "single_flight (fst (step e s ev))"
proof (cases ev)
  case (ResponseError err)
  then show ?thesis using assms by (simp add: on_response_error_single_flight)
next
  case (RefreshFulfilled tok)
  then show ?thesis
    using assms
    by (cases "awaiting s")
       (auto simp: single_flight_def refresh_fulfilled_def Let_def case_prod_beta api_frame
          forEach_queue_frame)
next
  case (RefreshRejected x)
  then show ?thesis
    using assms
    by (cases "awaiting s")
       (auto simp: single_flight_def refresh_rejected_def Let_def case_prod_beta
          forEach_queue_frame)
qed

lemma run_single_flight:
  "single_flight s \<Longrightarrow> single_flight (fst (run e s evs))"
proof (induction evs arbitrary: s)
  case Nil
  then show ?case by simp
next
  case (Cons ev evs)
  then show ?case
    using step_single_flight[of s e ev] by (simp add: case_prod_beta)
qed

lemma initial_single_flight: "single_flight (initial_client stored)"
  by (simp add: single_flight_def initial_client_def)

section \<open>Single-flight refresh\<close>

text \<open>
  Claim C1, as the code has it. Let no refresh be in flight, and let \<open>N \<ge> 1\<close> requests
  each fail with the token-expired signal, all of them before the refresh that the first
  one starts has settled (the events \<open>map failed_with rcs\<close>, in any order of arrival among
  themselves). Then the client issues exactly one refresh call, and it is all
  it does until the refresh settles: the flag is set, one handler waits for the refresh
  and the others are queued. When the refresh resolves with the token \<open>tok\<close>, the effects
  are exactly \<open>N\<close> replays, one for each of the requests (the queued ones in their order of
  arrival, then the one that started the refresh), each with its URL, method and body
  untouched and with \<^verbatim>\<open>Authorization: Bearer tok\<close>; the bridge holds \<open>tok\<close> and the client is
  idle again. A token is a non-empty string, which is how the client's own tests
  (\<^verbatim>\<open>if (token)\<close>, \<^verbatim>\<open>if (newToken && ...)\<close>) read it. Moreover, after every
  sequence of events from the start of the client at most one handler of the response
  interceptor waits for a refresh call, the flag is set exactly while one does, and the
  queue is empty otherwise: the flag admits no second refresh of the interceptor beside
  one in flight. A 401 that arrives after the refresh has settled finds the flag reset
  and starts a refresh of its own.
\<close>

theorem single_flight_refresh:
  assumes "idle s" and "rcs \<noteq> []" and "list_all token_expired rcs" and "tok \<noteq> []"
    and "run e s (map failed_with rcs) = (s1, effs1)"
    and "step e s1 (RefreshFulfilled tok) = (s2, effs2)"
  shows "refresh_calls (effs1 @ effs2) = 1 \<and> length effs1 = 1 \<and>
         isRefreshing s1 \<and> length (awaiting s1) = 1 \<and>
         map replayed effs2 =
           map (\<lambda>rc. Some (url (snd rc), http_method (snd rc), data (snd rc), Some (''Bearer '' @ tok)))
             (tl rcs @ [hd rcs]) \<and>
         getAccessToken s2 = Some tok \<and> idle s2 \<and>
         single_flight (fst (run e (initial_client stored) evs))"
proof -
  obtain rc rest where rcs: "rcs = rc # rest"
    using assms(2) by (cases rcs) auto
  have te: "token_expired rc" "list_all token_expired rest"
    using assms(3) by (simp_all add: rcs)
  let ?c0 = "(snd rc)\<lparr>retry := True\<rparr>"
  let ?q = "map (\<lambda>rc. (snd rc)\<lparr>retry := True\<rparr>) rest"
  obtain sa where sa: "step e s (failed_with rc) =
        (sa, [RefreshCall (snd (api e (s\<lparr>isRefreshing := True\<rparr>) refresh_request))])"
      "isRefreshing sa" "refreshQueue sa = []" "awaiting sa = [?c0]"
    using first_401_when_idle[OF assms(1) te(1)] by blast
  have rest: "run e sa (map failed_with rest) = (sa\<lparr>refreshQueue := refreshQueue sa @ ?q\<rparr>, [])"
    using sa(2) te(2) by (rule run_while_refreshing)
  have s1: "s1 = sa\<lparr>refreshQueue := ?q\<rparr>"
    and effs1: "effs1 = [RefreshCall (snd (api e (s\<lparr>isRefreshing := True\<rparr>) refresh_request))]"
    using assms(5) sa(1,3) rest by (simp_all add: rcs)
  have fin: "refresh_fulfilled e (s1\<lparr>awaiting := []\<rparr>) ?c0 tok = (s2, effs2)"
    using assms(6) sa(4) by (simp add: s1)
  have h0: "headers ?c0 \<noteq> None"
    using te(1) by (simp add: token_expired_def)
  have hq: "\<forall>c \<in> set (?q @ [?c0]). headers c \<noteq> None"
    using te by (auto simp: token_expired_def list_all_iff)
  note r = refresh_fulfilled_result[OF assms(4) h0 fin]
  have "map replayed effs2 =
          map (\<lambda>c. Some (url c, http_method c, data c, Some (''Bearer '' @ tok))) (?q @ [?c0])"
    using r(1) hq by (simp add: s1)
  then have rep: "map replayed effs2 =
      map (\<lambda>rc. Some (url (snd rc), http_method (snd rc), data (snd rc), Some (''Bearer '' @ tok)))
        (tl rcs @ [hd rcs])"
    by (simp add: rcs comp_def)
  have "idle s2"
    using r(5,6,7) by (simp add: idle_def)
  moreover have "single_flight (fst (run e (initial_client stored) evs))"
    using initial_single_flight by (rule run_single_flight)
  ultimately show ?thesis
    using rep r(2,4) sa(2,4)
    by (simp add: effs1 s1 refresh_calls_append getAccessToken_def)
qed

text \<open>
  The scenario of three requests A, B and C that fail with 401 at about the same time
  while the token T1 is held: one refresh call, and after it resolves with T2 the three
  requests leave again with \<^verbatim>\<open>Authorization: Bearer T2\<close>.
\<close>

theorem single_flight_refresh_witness:
  "idle (initial_client None) \<and> list_all token_expired [req_A, req_B, req_C] \<and>
   refresh_calls
     (snd (run browser (initial_client None) (map failed_with [req_A, req_B, req_C])) @
      snd (step browser
             (fst (run browser (initial_client None) (map failed_with [req_A, req_B, req_C])))
             (RefreshFulfilled ''T2''))) = 1 \<and>
   map replayed
     (snd (step browser
             (fst (run browser (initial_client None) (map failed_with [req_A, req_B, req_C])))
             (RefreshFulfilled ''T2''))) =
     [Some (Some ''/admin-monitor/incidents/42'', ''get'', None, Some ''Bearer T2''),
      Some (Some ''/auth/super-admin/sessions'', ''get'', None, Some ''Bearer T2''),
      Some (Some ''/admin-monitor/overview'', ''get'', None, Some ''Bearer T2'')] \<and>
   getAccessToken
     (fst (step browser
             (fst (run browser (initial_client None) (map failed_with [req_A, req_B, req_C])))
             (RefreshFulfilled ''T2''))) = Some ''T2''"
proof -
  have h1: "idle (initial_client None)"
    by (simp add: idle_def initial_client_def)
  have h2: "[req_A, req_B, req_C] \<noteq> []"
    by simp
  have h3: "list_all token_expired [req_A, req_B, req_C]"
    by code_simp
  have h4: "''T2'' \<noteq> []"
    by simp
  have rhs: "map (\<lambda>rc. Some (url (snd rc), http_method (snd rc), data (snd rc), Some (''Bearer '' @ ''T2'')))
               (tl [req_A, req_B, req_C] @ [hd [req_A, req_B, req_C]]) =
     [Some (Some ''/admin-monitor/incidents/42'', ''get'', None, Some ''Bearer T2''),
      Some (Some ''/auth/super-admin/sessions'', ''get'', None, Some ''Bearer T2''),
      Some (Some ''/admin-monitor/overview'', ''get'', None, Some ''Bearer T2'')]"
    by (simp add: req_A_def req_B_def req_C_def get_request_def)
  from single_flight_refresh[OF h1 h2 h3 h4 prod.collapse[symmetric] prod.collapse[symmetric]]
  show ?thesis
    using h1 h3 unfolding rhs by blast
qed

text \<open>
  The claim as it was stated names no order of arrival. Requests A and B are sent at
  the same time under T1, and both fail with the token-expired signal; the 401 of A
  arrives while no refresh is in flight, the refresh resolves with T2, and only then
  the 401 of B arrives. The flag is reset by then, B is not marked, and a second refresh
  call is issued: two refresh calls for the two requests.
\<close>

theorem late_401_second_refresh_counterexample:
  "idle (initial_client None) \<and> list_all token_expired [req_A, req_B] \<and>
   refresh_calls
     (snd (run browser (initial_client None)
        [failed_with req_A, RefreshFulfilled ''T2'', failed_with req_B])) = 2 \<and>
   isRefreshing
     (fst (run browser (initial_client None)
        [failed_with req_A, RefreshFulfilled ''T2'', failed_with req_B]))"
  by code_simp

section \<open>Refresh failure\<close>

text \<open>
  Claim C2, as the code has it. Let no refresh be in flight, let \<open>N \<ge> 1\<close> requests fail
  with the token-expired signal, and let the refresh call then fail with \<open>x\<close>. The bridge
  is cleared (\<open>getAccessToken\<close> returns \<open>None\<close>) and the client is idle again. The handler
  that started the refresh rejects with \<open>x\<close> itself. Every queued waiter is called with
  \<^verbatim>\<open>null\<close>: its request is issued again, once, with the headers it already had, and its
  caller gets the outcome of that replay, not \<open>x\<close>. No further refresh call is issued.
\<close>

theorem refresh_failure_outcome:
  assumes "idle s" and "rcs \<noteq> []" and "list_all token_expired rcs"
    and "run e s (map failed_with rcs) = (s1, effs1)"
    and "step e s1 (RefreshRejected x) = (s2, effs2)"
  shows "getAccessToken s2 = None \<and> idle s2 \<and>
         effs2 = butlast effs2 @ [RejectRefresh ((snd (hd rcs))\<lparr>retry := True\<rparr>) x] \<and>
         map replayed (butlast effs2) = map (\<lambda>rc. Some (wire (snd rc))) (tl rcs) \<and>
         refresh_calls effs2 = 0"
proof -
  obtain rc rest where rcs: "rcs = rc # rest"
    using assms(2) by (cases rcs) auto
  have te: "token_expired rc" "list_all token_expired rest"
    using assms(3) by (simp_all add: rcs)
  let ?c0 = "(snd rc)\<lparr>retry := True\<rparr>"
  let ?q = "map (\<lambda>rc. (snd rc)\<lparr>retry := True\<rparr>) rest"
  obtain sa where sa: "step e s (failed_with rc) =
        (sa, [RefreshCall (snd (api e (s\<lparr>isRefreshing := True\<rparr>) refresh_request))])"
      "isRefreshing sa" "refreshQueue sa = []" "awaiting sa = [?c0]"
    using first_401_when_idle[OF assms(1) te(1)] by blast
  have rest: "run e sa (map failed_with rest) = (sa\<lparr>refreshQueue := refreshQueue sa @ ?q\<rparr>, [])"
    using sa(2) te(2) by (rule run_while_refreshing)
  have s1: "s1 = sa\<lparr>refreshQueue := ?q\<rparr>"
    using assms(4) sa(1,3) rest by (simp_all add: rcs)
  have fin: "refresh_rejected e (s1\<lparr>awaiting := []\<rparr>) ?c0 x = (s2, effs2)"
    using assms(5) sa(4) by (simp add: s1)
  note r = refresh_rejected_result[OF fin]
  obtain replays where rp: "effs2 = replays @ [RejectRefresh ?c0 x]"
      "map replayed replays = map (\<lambda>c. Some (wire c)) ?q" "refresh_calls replays = 0"
    using r(1) by (auto simp: s1)
  have w: "map (\<lambda>c. Some (wire c)) ?q = map (\<lambda>rc. Some (wire (snd rc))) rest"
    by (simp add: wire_def header_def comp_def)
  have "idle s2"
    using r(3,4,5) by (simp add: idle_def)
  then show ?thesis
    using r(2) rp w by (simp add: rcs getAccessToken_def refresh_calls_append)
qed

text \<open>
  Requests A and B fail with 401, the refresh fails: the bridge is empty, and B, the
  queued one, leaves again with the header it was first sent with.
\<close>

theorem refresh_failure_outcome_witness:
  "idle (initial_client None) \<and> list_all token_expired [req_A, req_B] \<and>
   getAccessToken
     (fst (step browser (fst (run browser (initial_client None) (map failed_with [req_A, req_B])))
             (RefreshRejected refresh_failure))) = None \<and>
   map replayed
     (butlast
       (snd (step browser (fst (run browser (initial_client None) (map failed_with [req_A, req_B])))
               (RefreshRejected refresh_failure)))) =
     [Some (Some ''/admin-monitor/incidents/42'', ''get'', None, Some ''Bearer T1'')]"
proof -
  have h1: "idle (initial_client None)"
    by (simp add: idle_def initial_client_def)
  have h2: "[req_A, req_B] \<noteq> []"
    by simp
  have h3: "list_all token_expired [req_A, req_B]"
    by code_simp
  have rhs: "map (\<lambda>rc. Some (wire (snd rc))) (tl [req_A, req_B]) =
     [Some (Some ''/admin-monitor/incidents/42'', ''get'', None, Some ''Bearer T1'')]"
    by (simp add: req_B_def get_request_def wire_def header_def)
  from refresh_failure_outcome[OF h1 h2 h3 prod.collapse[symmetric] prod.collapse[symmetric]]
  show ?thesis
    using h1 h3 unfolding rhs by blast
qed

text \<open>
  The claim as it was stated fails there: after the refresh failed, not every pending
  request is rejected with the refresh failure. The effects are a replay of B, carrying
  the stale \<^verbatim>\<open>Bearer T1\<close>, and then the rejection of A.
\<close>

theorem queued_waiters_replayed_counterexample:
  "\<not> list_all (rejected_with refresh_failure)
       (snd (step browser (fst (run browser (initial_client None) (map failed_with [req_A, req_B])))
               (RefreshRejected refresh_failure))) \<and>
   map replayed
     (snd (step browser (fst (run browser (initial_client None) (map failed_with [req_A, req_B])))
             (RefreshRejected refresh_failure))) =
     [Some (Some ''/admin-monitor/incidents/42'', ''get'', None, Some ''Bearer T1''), None]"
  by code_simp

section \<open>One retry for a request\<close>

lemma on_response_error_marked:
  assumes "marked s"
  shows "marked (fst (on_response_error e s err))"
    and "list_all replay_marked (snd (on_response_error e s err))"
  using assms
  by (auto simp: on_response_error_def marked_def Let_def case_prod_beta api_frame
        split: error.splits option.splits)

lemma step_marked:
  assumes "marked s"
  shows "marked (fst (step e s ev)) \<and> list_all replay_marked (snd (step e s ev))"
proof (cases ev)
  case (ResponseError err)
  then show ?thesis using assms on_response_error_marked by simp
next
  case (RefreshFulfilled tok)
  show ?thesis
  proof (cases "awaiting s")
    case Nil
    then show ?thesis using assms RefreshFulfilled by simp
  next
    case (Cons c rest)
    let ?s = "s\<lparr>awaiting := rest\<rparr>"
    have m: "list_all retry (refreshQueue s)" "retry c" "list_all retry rest"
      using assms Cons by (simp_all add: marked_def)
    have "marked (fst (refresh_fulfilled e ?s c tok))"
      using m(3)
      by (simp add: refresh_fulfilled_def Let_def case_prod_beta marked_def api_frame
            forEach_queue_frame)
    moreover have "list_all replay_marked (snd (refresh_fulfilled e ?s c tok))"
      using m(1,2)
      by (simp add: refresh_fulfilled_def Let_def case_prod_beta api_out_fields
            forEach_queue_marked)
    ultimately show ?thesis using RefreshFulfilled Cons by simp
  qed
next
  case (RefreshRejected x)
  show ?thesis
  proof (cases "awaiting s")
    case Nil
    then show ?thesis using assms RefreshRejected by simp
  next
    case (Cons c rest)
    let ?s = "s\<lparr>awaiting := rest\<rparr>"
    have m: "list_all retry (refreshQueue s)" "retry c" "list_all retry rest"
      using assms Cons by (simp_all add: marked_def)
    have "marked (fst (refresh_rejected e ?s c x))"
      using m(3)
      by (simp add: refresh_rejected_def Let_def case_prod_beta marked_def forEach_queue_frame)
    moreover have "list_all replay_marked (snd (refresh_rejected e ?s c x))"
      using m(1)
      by (simp add: refresh_rejected_def Let_def case_prod_beta forEach_queue_marked)
    ultimately show ?thesis using RefreshRejected Cons by simp
  qed
qed

lemma apply_write_client:
  "refreshQueue (fst (apply_write a w)) = refreshQueue (fst a)"
  "awaiting (fst (apply_write a w)) = awaiting (fst a)"
  "isRefreshing (fst (apply_write a w)) = isRefreshing (fst a)"
  by (cases a; cases w; simp add: setAccessToken_def)+

lemma apply_op_client:
  "refreshQueue (fst (apply_op a op)) = refreshQueue (fst a)"
  "awaiting (fst (apply_op a op)) = awaiting (fst a)"
  "isRefreshing (fst (apply_op a op)) = isRefreshing (fst a)"
  by (cases op; simp add: apply_op_def apply_write_client)+

lemma app_step_marked:
  assumes "marked (fst a)"
  shows "marked (fst (fst (app_step e a ev))) \<and> list_all replay_marked (snd (app_step e a ev))"
proof (cases ev)
  case (Client cev)
  then show ?thesis
    using step_marked[OF assms, of e cev] by (cases a) (simp add: case_prod_beta)
next
  case (Store op)
  then show ?thesis using assms by (simp add: marked_def apply_op_client)
next
  case BootstrapBegin
  then show ?thesis
    using assms
    by (simp add: marked_def bootstrap_begin_def setLoading_def case_prod_beta Let_def
          api_frame apply_op_client)
next
  case (BootstrapSettled cancelled outcome)
  then show ?thesis
    using assms
    by (simp add: marked_def bootstrap_settled_def setLoading_def setAuth_def clearAuth_def
          Let_def apply_op_client split: refresh_outcome.splits)
qed

lemma app_run_marked:
  "marked (fst a) \<Longrightarrow> list_all replay_marked (snd (app_run e a evs))"
proof (induction evs arbitrary: a)
  case Nil
  then show ?case by simp
next
  case (Cons ev evs)
  from app_step_marked[OF Cons.prems, of e ev]
  have "marked (fst (fst (app_step e a ev)))" "list_all replay_marked (snd (app_step e a ev))"
    by simp_all
  with Cons.IH[of "fst (app_step e a ev)"] show ?case
    by (simp add: case_prod_beta)
qed

text \<open>
  Claim C3. A 401 on a request whose retry marker is already set is not retried: the
  handler rejects with that very error, starts no refresh, queues nothing and leaves the
  state as it was, whatever the state and the URL. And the marker is always set on a
  request that is replayed: in every run of the application from its start, under any
  sequence of events, each replay holds the marker, on the request held back and on the
  request that leaves. So the failure of a replay with 401 always meets the first part,
  and a request is replayed at most once.
\<close>

theorem retried_once_only:
  assumes "status r = 401" and "retry c"
  shows "step e s (ResponseError (AxiosError (Some r) (Some c))) =
           (s, [Reject (AxiosError (Some r) (Some c))]) \<and>
         list_all replay_marked (snd (app_run e (initial_app stored) evs))"
  using assms app_run_marked[of "initial_app stored" e evs]
  by (simp add: on_response_error_def marked_def initial_app_def initial_client_def)

text \<open>
  A replayed request that fails with 401 again is rejected with its error; the replays
  of a run with two expired requests all carry the marker.
\<close>

theorem retried_once_only_witness:
  "status expired = 401 \<and>
   step browser (initial_client None)
     (ResponseError (AxiosError (Some expired)
        (Some ((get_request ''/admin-monitor/overview'' ''T2'')\<lparr>retry := True\<rparr>)))) =
     (initial_client None,
      [Reject (AxiosError (Some expired)
         (Some ((get_request ''/admin-monitor/overview'' ''T2'')\<lparr>retry := True\<rparr>)))]) \<and>
   list_all replay_marked
     (snd (app_run browser (initial_app None)
        [Store (SetAuth admin ''T1''), Client (failed_with req_A), Client (failed_with req_B),
         Client (RefreshFulfilled ''T2'')]))"
proof -
  have h1: "status expired = 401"
    by (simp add: expired_def)
  have h2: "retry ((get_request ''/admin-monitor/overview'' ''T2'')\<lparr>retry := True\<rparr>)"
    by simp
  from retried_once_only[OF h1 h2] show ?thesis
    using h1 by blast
qed

section \<open>Step-up\<close>

text \<open>
  Claim C4, as the code has it. For every response with status 403 whose body is an
  object with \<^verbatim>\<open>stepUp: true\<close>, in any state of the client (a refresh may be in flight),
  the handler rejects with the original error and leaves the state as it was: no refresh
  call, nothing queued, no retry marker. It redirects to \<^verbatim>\<open>/god/step-up\<close> exactly once
  where a \<^verbatim>\<open>window\<close> exists, and not at all where none does (the assignment is guarded
  by \<^verbatim>\<open>typeof window !== 'undefined'\<close>).
\<close>

theorem step_up_redirect:
  assumes "status r = 403" and "body r = JObj ps" and "map_of ps ''stepUp'' = Some (JBool True)"
  shows "step e s (ResponseError (AxiosError (Some r) cfg)) =
           (s, (if has_window e then [Redirect ''/god/step-up''] else []) @
               [Reject (AxiosError (Some r) cfg)])"
  using assms by (simp add: on_response_error_def prop_truthy_def)

text \<open>In a browser: one redirect, then the rejection with the original error.\<close>

theorem step_up_redirect_witness:
  "step browser (initial_client None)
     (ResponseError (AxiosError (Some step_up_required)
        (Some (get_request ''/admin-monitor/overview'' ''T1'')))) =
     (initial_client None,
      [Redirect ''/god/step-up'',
       Reject (AxiosError (Some step_up_required)
         (Some (get_request ''/admin-monitor/overview'' ''T1'')))])"
proof -
  have h1: "status step_up_required = 403"
    by (simp add: step_up_required_def)
  have h2: "body step_up_required = JObj [(''stepUp'', JBool True), (''riskLevel'', JStr ''high'')]"
    by (simp add: step_up_required_def)
  have h3: "map_of [(''stepUp'', JBool True), (''riskLevel'', JStr ''high'')] ''stepUp'' =
              Some (JBool True)"
    by simp
  from step_up_redirect[OF h1 h2 h3, of browser] show ?thesis
    by (simp add: browser_def)
qed

text \<open>
  The claim as it was stated asks for exactly one redirect for every such response.
  Where the module runs without a \<^verbatim>\<open>window\<close>, the same response triggers none.
\<close>

theorem no_redirect_without_window_counterexample:
  "status step_up_required = 403 \<and> get_prop (body step_up_required) ''stepUp'' = Some (JBool True) \<and>
   redirects
     (snd (step server (initial_client None)
        (ResponseError (AxiosError (Some step_up_required)
           (Some (get_request ''/admin-monitor/overview'' ''T1'')))))) = 0"
  by code_simp

section \<open>Authentication endpoints\<close>

text \<open>
  Claim C5. A 401 on a request whose URL contains one of the four fragments of the
  authentication endpoints (login, refresh, MFA, step-up) starts no refresh cycle: the
  handler rejects with that very error and the state of the client, the flag, the queue
  and the held token among it, is what it was.
\<close>

theorem auth_endpoint_401_not_refreshed:
  assumes "f \<in> set auth_fragments" and "url c = Some (p @ f @ q)" and "status r = 401"
  shows "step e s (ResponseError (AxiosError (Some r) (Some c))) =
           (s, [Reject (AxiosError (Some r) (Some c))])"
proof -
  have "list_ex (contains_fragment (p @ f @ q)) auth_fragments"
    using assms(1) by (auto simp: list_ex_iff contains_fragment_def)
  then have "isAuthEndpoint (url c)"
    using assms(2) by (simp add: isAuthEndpoint_iff)
  then show ?thesis
    using assms(3) by (simp add: on_response_error_def)
qed

text \<open>The refresh call itself answered with 401: rejected as it is, nothing else happens.\<close>

theorem auth_endpoint_401_not_refreshed_witness:
  "step browser (initial_client None) (ResponseError refresh_failure) =
     (initial_client None, [Reject refresh_failure])"
proof -
  have h1: "''/auth/super-admin/refresh'' \<in> set auth_fragments"
    by (simp add: auth_fragments_def)
  have h2: "url refresh_request = Some ([] @ ''/auth/super-admin/refresh'' @ [])"
    by (simp add: refresh_request_def)
  have h3: "status \<lparr>status = 401, body = JObj [(''message'', JStr ''Session revoked'')]\<rparr> = 401"
    by simp
  from auth_endpoint_401_not_refreshed[OF h1 h2 h3] show ?thesis
    by (simp add: refresh_failure_def)
qed

section \<open>The request decorator\<close>

lemma step_issued: "list_all (issued_under (token_at_issue s ev)) (snd (step e s ev))"
proof (cases ev)
  case (ResponseError err)
  have "decorated (accessToken s) refresh_request
          (snd (api e (s\<lparr>isRefreshing := True\<rparr>) refresh_request))"
    using api_decorated[of "s\<lparr>isRefreshing := True\<rparr>" refresh_request e] by simp
  then show ?thesis
    using ResponseError
    by (auto simp: on_response_error_def Let_def case_prod_beta split: error.splits option.splits)
next
  case (RefreshFulfilled tok)
  show ?thesis
  proof (cases "awaiting s")
    case Nil
    then show ?thesis using RefreshFulfilled by simp
  next
    case (Cons c rest)
    let ?s1 = "s\<lparr>awaiting := rest, accessToken := Some tok\<rparr>"
    let ?fe = "forEach_queue e ?s1 (refreshQueue s) (Some tok)"
    let ?s3 = "(fst ?fe)\<lparr>refreshQueue := [], isRefreshing := False\<rparr>"
    have a: "list_all (issued_under (Some tok)) (snd ?fe)"
      using forEach_queue_issued[of ?s1 e "refreshQueue s" "Some tok"] by simp
    have b: "decorated (Some tok) c' (snd (api e ?s3 c'))" for c'
      using api_decorated[of ?s3 c' e] by (simp add: forEach_queue_frame)
    show ?thesis
      using RefreshFulfilled Cons a b
      by (simp add: refresh_fulfilled_def Let_def case_prod_beta)
  qed
next
  case (RefreshRejected x)
  show ?thesis
  proof (cases "awaiting s")
    case Nil
    then show ?thesis using RefreshRejected by simp
  next
    case (Cons c rest)
    let ?s1 = "s\<lparr>awaiting := rest, accessToken := None\<rparr>"
    have "list_all (issued_under None) (snd (forEach_queue e ?s1 (refreshQueue s) None))"
      using forEach_queue_issued[of ?s1 e "refreshQueue s" None] by simp
    then show ?thesis
      using RefreshRejected Cons
      by (simp add: refresh_rejected_def Let_def case_prod_beta)
  qed
qed

text \<open>
  Claim C6, as the code has it. The request interceptor, on a request with its header
  object:
  \<^item> it sets \<^verbatim>\<open>Authorization\<close> to the bearer value of the token the bridge holds at that
    moment, replacing whatever value the request carried, exactly when a token is held
    (a non-empty string); when none is held it leaves the header as it was; URL, method,
    body and retry marker are untouched;
  \<^item> whatever the token, in a browser (a \<^verbatim>\<open>window\<close> exists and \<^verbatim>\<open>generateId()\<close> returns a
    non-empty identifier) it sets \<^verbatim>\<open>x-device-id\<close> and \<^verbatim>\<open>x-device-label\<close> to the device
    identity \<^verbatim>\<open>getDeviceInfo()\<close> returns, and without a \<^verbatim>\<open>window\<close> it leaves both headers
    as they were;
  \<^item> every request a step of the client issues, the refresh call and each replay, has
    passed it under the token held when it was issued: for the replays after a refresh
    that resolved with \<open>tok\<close> that is \<open>tok\<close>, not the token the request was first sent with;
    for the waiters issued again after a refresh that failed no token is held, and they
    keep the header they were first sent with.
\<close>

theorem request_decorator:
  assumes "headers c = Some hs" and "request_interceptor e s c = (s', out)"
  shows "decorated (accessToken s) c out \<and>
         header out ''Authorization'' =
           (case bearer_of (accessToken s) of Some b \<Rightarrow> Some b | None \<Rightarrow> map_of hs ''Authorization'') \<and>
         (has_window e \<longrightarrow> generated_id e \<noteq> [] \<longrightarrow>
            (\<exists>d l. d \<noteq> [] \<and> l \<noteq> [] \<and> fst (getDeviceInfo e s) = (Some d, Some l) \<and>
                   header out ''x-device-id'' = Some d \<and> header out ''x-device-label'' = Some l)) \<and>
         (\<not> has_window e \<longrightarrow>
            header out ''x-device-id'' = map_of hs ''x-device-id'' \<and>
            header out ''x-device-label'' = map_of hs ''x-device-label'') \<and>
         list_all (issued_under (token_at_issue s0 ev)) (snd (step e s0 ev))"
proof -
  have out: "out = snd (api e s c)"
    using assms(2) by (simp add: api_def)
  have d: "decorated (accessToken s) c out"
    unfolding out by (rule api_decorated)
  have hc: "header c ''Authorization'' = map_of hs ''Authorization''"
    using assms(1) by (simp add: header_def)
  have a: "header out ''Authorization'' =
      (case bearer_of (accessToken s) of Some b \<Rightarrow> Some b | None \<Rightarrow> map_of hs ''Authorization'')"
    using d assms(1) by (simp add: decorated_def hc split: option.splits)
  have b: "\<exists>d l. d \<noteq> [] \<and> l \<noteq> [] \<and> fst (getDeviceInfo e s) = (Some d, Some l) \<and>
                   header out ''x-device-id'' = Some d \<and> header out ''x-device-label'' = Some l"
    if w: "has_window e" and g: "generated_id e \<noteq> []"
  proof -
    obtain d l where dl: "d \<noteq> []" "l \<noteq> []" "fst (getDeviceInfo e s) = (Some d, Some l)"
      using getDeviceInfo_browser[OF w g] by blast
    have h: "headers (attach_bearer (accessToken s) c) \<noteq> None"
      using assms(1) by simp
    have "out = attach_device (Some d, Some l) (attach_bearer (accessToken s) c)"
      using assms(2) w h dl(3)
      by (auto simp: request_interceptor_def Let_def case_prod_beta simp del: not_None_eq)
    then show ?thesis
      using dl header_attach_device_id[OF h dl(1,2)] by blast
  qed
  have n: "header out ''x-device-id'' = map_of hs ''x-device-id'' \<and>
           header out ''x-device-label'' = map_of hs ''x-device-label''"
    if "\<not> has_window e"
  proof -
    have "out = attach_bearer (accessToken s) c"
      using assms(2) that by (auto simp: request_interceptor_def Let_def)
    then show ?thesis
      using assms(1) by (simp add: header_attach_bearer_other) (simp add: header_def)
  qed
  show ?thesis
    using d a b n step_issued by blast
qed

text \<open>
  A request first sent under T1 passes the interceptor while T2 is held, in a browser
  with nothing cached: it leaves with \<^verbatim>\<open>Bearer T2\<close> and with the device headers.
\<close>

theorem request_decorator_witness:
  "header (snd (request_interceptor browser ((initial_client None)\<lparr>accessToken := Some ''T2''\<rparr>)
             (get_request ''/admin-monitor/overview'' ''T1''))) ''Authorization'' = Some ''Bearer T2'' \<and>
   header (snd (request_interceptor browser ((initial_client None)\<lparr>accessToken := Some ''T2''\<rparr>)
             (get_request ''/admin-monitor/overview'' ''T1''))) ''x-device-id'' =
     Some ''7c9e6679-7425-40de-944b-e07fc1f90ae7'' \<and>
   header (snd (request_interceptor browser ((initial_client None)\<lparr>accessToken := Some ''T2''\<rparr>)
             (get_request ''/admin-monitor/overview'' ''T1''))) ''x-device-label'' =
     Some ''Linux desktop''"
proof -
  let ?s = "(initial_client None)\<lparr>accessToken := Some ''T2''\<rparr>"
  let ?c = "get_request ''/admin-monitor/overview'' ''T1''"
  have h1: "headers ?c = Some [(''Authorization'', ''Bearer '' @ ''T1'')]"
    by (simp add: get_request_def)
  have g: "fst (getDeviceInfo browser ?s) =
             (Some ''7c9e6679-7425-40de-944b-e07fc1f90ae7'', Some ''Linux desktop'')"
    by code_simp
  have w: "has_window browser" "generated_id browser \<noteq> []"
    by (simp_all add: browser_def)
  from request_decorator[where e = browser and s = ?s, OF h1 prod.collapse[symmetric]] w g
  show ?thesis
    by (auto simp: bearer_of_def)
qed

text \<open>
  The claim as it was stated has every replayed request carry the token current at
  replay time and not the one captured when it was first sent. Requests A and B fail
  with 401 under T1 and the refresh fails: the bridge is cleared, and B is issued again
  with \<^verbatim>\<open>Bearer T1\<close>, the value it was first sent with.
\<close>

theorem stale_token_replayed_counterexample:
  "token_at_issue
     (fst (run browser (initial_client None) (map failed_with [req_A, req_B])))
     (RefreshRejected refresh_failure) = None \<and>
   \<not> list_all (carries_token None)
       (snd (step browser (fst (run browser (initial_client None) (map failed_with [req_A, req_B])))
               (RefreshRejected refresh_failure))) \<and>
   header (snd req_B) ''Authorization'' = Some ''Bearer T1'' \<and>
   map replayed
     (snd (step browser (fst (run browser (initial_client None) (map failed_with [req_A, req_B])))
             (RefreshRejected refresh_failure))) =
     [Some (url (snd req_B), http_method (snd req_B), data (snd req_B), Some ''Bearer T1''), None]"
  by code_simp

section \<open>The bootstrap flag\<close>

lemma apply_write_bootstrapped:
  "hasBootstrapped (snd a) \<Longrightarrow> hasBootstrapped (snd (apply_write a w))"
  by (cases a; cases w) simp_all

lemma writes_bootstrapped:
  "hasBootstrapped (snd a) \<Longrightarrow> hasBootstrapped (snd (foldl apply_write a ws))"
  by (induction ws arbitrary: a) (simp_all add: apply_write_bootstrapped)

lemma apply_op_bootstrapped:
  "hasBootstrapped (snd a) \<Longrightarrow> hasBootstrapped (snd (apply_op a op))"
  by (simp add: apply_op_def writes_bootstrapped)

lemma bootstrap_begin_store:
  "hasBootstrapped (snd (fst (bootstrap_begin e a))) = hasBootstrapped (snd a)"
  by (cases a) (simp add: bootstrap_begin_def setLoading_def apply_op_def case_prod_beta Let_def)

lemma bootstrap_settled_store:
  "hasBootstrapped (snd (bootstrap_settled cancelled outcome a)) =
     (\<not> cancelled \<or> hasBootstrapped (snd a))"
  by (cases a; cases outcome)
     (simp_all add: bootstrap_settled_def setLoading_def setAuth_def clearAuth_def apply_op_def)

lemma app_step_bootstrapped:
  "hasBootstrapped (snd a) \<Longrightarrow> hasBootstrapped (snd (fst (app_step e a ev)))"
  by (cases a; cases ev)
     (simp_all add: case_prod_beta apply_op_bootstrapped bootstrap_begin_store
        bootstrap_settled_store)

lemma app_run_bootstrapped:
  "hasBootstrapped (snd a) \<Longrightarrow> hasBootstrapped (snd (fst (app_run e a evs)))"
proof (induction evs arbitrary: a)
  case Nil
  then show ?case by simp
next
  case (Cons ev evs)
  then show ?case
    using app_step_bootstrapped[of a e ev] by (simp add: case_prod_beta)
qed

text \<open>
  Claim C7, as the code has it. \<open>hasBootstrapped\<close> starts false. The bootstrap leaves it
  as it is up to its \<^verbatim>\<open>await\<close>, and sets it when its refresh call settles, with success
  or with failure, unless the run was cancelled before by the cleanup of its effect: a
  cancelled run writes nothing. Once true it stays true: under every sequence of single
  writes of the store's actions, and under every sequence of events of the application,
  the actions \<open>setAuth\<close>, \<open>clearAuth\<close> and \<open>setLoading\<close>, further runs of the bootstrap and
  the events of the client among them. This holds for every sequence, so also at every
  point of it.
\<close>

theorem hasBootstrapped_monotone:
  "\<not> hasBootstrapped initial_store \<and>
   hasBootstrapped (snd (fst (app_step e a BootstrapBegin))) = hasBootstrapped (snd a) \<and>
   hasBootstrapped (snd (fst (app_step e a (BootstrapSettled False outcome)))) \<and>
   hasBootstrapped (snd (fst (app_step e a (BootstrapSettled True outcome)))) =
     hasBootstrapped (snd a) \<and>
   (hasBootstrapped (snd a) \<longrightarrow> hasBootstrapped (snd (foldl apply_write a ws))) \<and>
   (hasBootstrapped (snd a) \<longrightarrow> hasBootstrapped (snd (fst (app_run e a evs))))"
  by (simp add: initial_store_def bootstrap_begin_store bootstrap_settled_store
        writes_bootstrapped app_run_bootstrapped)

text \<open>
  The application starts, its bootstrap fails; then a second bootstrap runs, with store
  actions and a cancelled run in between: the flag is false at the start and true after
  the first bootstrap and at the end.
\<close>

theorem hasBootstrapped_monotone_witness:
  "\<not> hasBootstrapped (snd (initial_app None)) \<and>
   hasBootstrapped
     (snd (fst (app_step browser (fst (app_step browser (initial_app None) BootstrapBegin))
                  (BootstrapSettled False Failed)))) \<and>
   hasBootstrapped
     (snd (fst (app_run browser
        (fst (app_step browser (fst (app_step browser (initial_app None) BootstrapBegin))
                (BootstrapSettled False Failed)))
        [BootstrapBegin, Store (SetLoading True), BootstrapSettled True Failed,
         BootstrapSettled False (Fulfilled admin ''T1''), Store ClearAuth])))"
proof -
  let ?a = "fst (app_step browser (fst (app_step browser (initial_app None) BootstrapBegin))
                  (BootstrapSettled False Failed))"
  note m = hasBootstrapped_monotone[of browser
      "fst (app_step browser (initial_app None) BootstrapBegin)" Failed]
  have a: "hasBootstrapped (snd ?a)"
    using m by blast
  have i: "\<not> hasBootstrapped (snd (initial_app None))"
    using m by (simp add: initial_app_def)
  from hasBootstrapped_monotone[of browser ?a] a i show ?thesis
    by blast
qed

text \<open>
  The claim as it was stated has the flag become true on the first resolution of the
  bootstrap refresh. When the effect is cleaned up before the refresh settles, the
  resolution, a failure or a success, leaves the flag false.
\<close>

theorem cancelled_bootstrap_counterexample:
  "\<not> hasBootstrapped
       (snd (fst (app_run browser (initial_app None) [BootstrapBegin, BootstrapSettled True Failed]))) \<and>
   \<not> hasBootstrapped
       (snd (fst (app_run browser (initial_app None)
          [BootstrapBegin, BootstrapSettled True (Fulfilled admin ''T1'')])))"
  by code_simp

section \<open>Failures without a response\<close>

text \<open>
  Claim C8. For a failed request with no response at all, the response interceptor
  rejects with exactly the error it received, and the state of the client is what it
  was: the refreshing flag, the queue and the held token are unchanged.
\<close>

theorem no_response_passes_through:
  "step e s (ResponseError (AxiosError None cfg)) = (s, [Reject (AxiosError None cfg)])"
  by (simp add: on_response_error_def)

text \<open>A network failure while a refresh is in flight and a token is held.\<close>

theorem no_response_passes_through_witness:
  "step browser ((initial_client None)\<lparr>accessToken := Some ''T1'', isRefreshing := True\<rparr>)
     (ResponseError (AxiosError None (Some (get_request ''/admin-monitor/overview'' ''T1'')))) =
     ((initial_client None)\<lparr>accessToken := Some ''T1'', isRefreshing := True\<rparr>,
      [Reject (AxiosError None (Some (get_request ''/admin-monitor/overview'' ''T1'')))])"
  by (rule no_response_passes_through)

section \<open>The two places of the token\<close>

text \<open>
  Claim C9, as the code has it. \<open>setAuth user t\<close> sets the bridge and the store's
  \<^verbatim>\<open>accessToken\<close> to \<open>t\<close>, and \<open>clearAuth\<close> sets both to \<^verbatim>\<open>null\<close>, the bridge first and
  the store second (the write to the bridge leaves the store as it is). \<open>setLoading\<close>
  writes neither, so it keeps the two in agreement when they agree. Hence the two agree
  after every sequence of store actions from the start of the application. They do not
  always agree: the response interceptor writes the bridge alone.
\<close>

theorem store_ops_tokens:
  "getAccessToken (fst (setAuth u t a)) = Some t \<and>
   store_accessToken (snd (setAuth u t a)) = Some t \<and>
   getAccessToken (fst (clearAuth a)) = None \<and>
   store_accessToken (snd (clearAuth a)) = None \<and>
   writes_of (SetAuth u t) = [BridgeSet (Some t), StoreSet (Some u) (Some t)] \<and>
   writes_of ClearAuth = [BridgeSet None, StoreSet None None] \<and>
   apply_write a (BridgeSet tok) = (setAccessToken tok (fst a), snd a) \<and>
   (tokens_agree a \<longrightarrow> tokens_agree (setLoading v a)) \<and>
   tokens_agree (foldl apply_op (initial_app stored) ops)"
proof -
  have op: "tokens_agree b \<Longrightarrow> tokens_agree (apply_op b op)" for b op
    by (cases b; cases op)
       (simp_all add: apply_op_def tokens_agree_def getAccessToken_def setAccessToken_def)
  have ops: "tokens_agree b \<Longrightarrow> tokens_agree (foldl apply_op b ops)" for b
    by (induction ops arbitrary: b) (simp_all add: op)
  have init: "tokens_agree (initial_app stored)"
    by (simp add: tokens_agree_def initial_app_def initial_client_def initial_store_def
          getAccessToken_def)
  show ?thesis
    using op[of a "SetLoading v"] ops[OF init]
    by (cases a)
       (simp add: setAuth_def clearAuth_def setLoading_def apply_op_def getAccessToken_def
          setAccessToken_def)
qed

text \<open>Store actions alone, from the start of the application.\<close>

theorem store_ops_tokens_witness:
  "tokens_agree (initial_app None) \<and>
   tokens_agree (setLoading False (initial_app None)) \<and>
   getAccessToken (fst (setAuth admin ''T1'' (initial_app None))) = Some ''T1'' \<and>
   store_accessToken (snd (setAuth admin ''T1'' (initial_app None))) = Some ''T1'' \<and>
   tokens_agree (foldl apply_op (initial_app None) [SetLoading True, SetAuth admin ''T1'', ClearAuth])"
proof -
  have i: "tokens_agree (initial_app None)"
    using store_ops_tokens[of admin "''T1''" "initial_app None" None False None "[]"] by simp
  from store_ops_tokens[of admin "''T1''" "initial_app None" None False None
         "[SetLoading True, SetAuth admin ''T1'', ClearAuth]"] i
  show ?thesis by blast
qed

text \<open>
  The claim as it was stated fails on this run: the administrator logs in with T1,
  request A fails with 401, the refresh resolves with T2, which the interceptor writes
  to the bridge only, and then the store action \<open>setLoading\<close> runs. After that store
  action the store holds T1 and the bridge T2.
\<close>

theorem stale_store_token_counterexample:
  "\<not> tokens_agree
       (fst (app_run browser (initial_app None)
          [Store (SetAuth admin ''T1''), Client (failed_with req_A),
           Client (RefreshFulfilled ''T2''), Store (SetLoading True)])) \<and>
   store_accessToken (snd (fst (app_run browser (initial_app None)
          [Store (SetAuth admin ''T1''), Client (failed_with req_A),
           Client (RefreshFulfilled ''T2''), Store (SetLoading True)]))) = Some ''T1'' \<and>
   getAccessToken (fst (fst (app_run browser (initial_app None)
          [Store (SetAuth admin ''T1''), Client (failed_with req_A),
           Client (RefreshFulfilled ''T2''), Store (SetLoading True)]))) = Some ''T2''"
  by code_simp

section \<open>Classification of authentication endpoints\<close>

text \<open>
  Claim C10. \<open>isAuthEndpoint\<close> is substring containment: it holds of a URL exactly when
  the URL is a defined string that contains one of the four fragments. In particular a
  request without a URL is not an authentication endpoint, and a 401 on it passes the
  guard and takes the refresh path: unless it was retried before (then it is rejected),
  the marker is set and the request is queued behind a refresh in flight or else starts
  the refresh call.
\<close>

theorem isAuthEndpoint_substring:
  "(isAuthEndpoint u \<longleftrightarrow> (\<exists>s. u = Some s \<and> (\<exists>f \<in> set auth_fragments. contains_fragment s f))) \<and>
   (url c = None \<and> status r = 401 \<longrightarrow>
      \<not> isAuthEndpoint (url c) \<and>
      step e s (ResponseError (AxiosError (Some r) (Some c))) =
        (if retry c then (s, [Reject (AxiosError (Some r) (Some c))])
         else if isRefreshing s
         then (s\<lparr>refreshQueue := refreshQueue s @ [c\<lparr>retry := True\<rparr>]\<rparr>, [])
         else (let (s2, out) = api e (s\<lparr>isRefreshing := True\<rparr>) refresh_request
               in (s2\<lparr>awaiting := awaiting s2 @ [c\<lparr>retry := True\<rparr>]\<rparr>, [RefreshCall out]))))"
proof -
  have "isAuthEndpoint None = False"
    by (simp add: isAuthEndpoint_def truthy_def)
  then show ?thesis
    by (auto simp: isAuthEndpoint_iff list_ex_iff on_response_error_def Let_def)
qed

text \<open>
  An MFA endpoint is classified, the logout endpoint and a missing URL are not; a 401 on
  a request without URL, while a refresh is in flight, is queued with its marker set.
\<close>

theorem isAuthEndpoint_substring_witness:
  "isAuthEndpoint (Some ''/auth/super-admin/mfa/status'') \<and>
   \<not> isAuthEndpoint (Some ''/auth/super-admin/logout'') \<and>
   \<not> isAuthEndpoint None \<and>
   step browser ((initial_client None)\<lparr>isRefreshing := True\<rparr>)
     (ResponseError (AxiosError (Some expired)
        (Some ((get_request [] ''T1'')\<lparr>url := None\<rparr>)))) =
     ((initial_client None)
        \<lparr>isRefreshing := True,
         refreshQueue := [(get_request [] ''T1'')\<lparr>url := None, retry := True\<rparr>]\<rparr>, [])"
proof -
  have c: "contains_fragment ''/auth/super-admin/mfa/status'' ''/auth/super-admin/mfa''"
    unfolding contains_fragment_def
    by (rule exI[of _ "[]"], rule exI[of _ "''/status''"]) simp
  have f: "''/auth/super-admin/mfa'' \<in> set auth_fragments"
    by (simp add: auth_fragments_def)
  have a: "isAuthEndpoint (Some ''/auth/super-admin/mfa/status'')"
    using isAuthEndpoint_substring[of "Some ''/auth/super-admin/mfa/status''"] c f by blast
  have l: "\<not> isAuthEndpoint (Some ''/auth/super-admin/logout'')"
    by code_simp
  let ?c = "(get_request [] ''T1'')\<lparr>url := None\<rparr>"
  have h: "url ?c = None \<and> status expired = 401 \<and> \<not> retry ?c"
    by (simp add: expired_def get_request_def)
  from isAuthEndpoint_substring[of None ?c expired browser
         "(initial_client None)\<lparr>isRefreshing := True\<rparr>"] h a l
  show ?thesis
    by (simp add: initial_client_def)
qed

end
